theory Spec2Isabelle
  imports Main "HOL-Library.Sublist" "HOL-Library.Char_ord" "HOL-Library.List_Lexorder"
    "HOL-Library.AList"
begin

section \<open>Paths and text\<close>

text \<open>
  Text is a list of bytes: the UTF-8 encoding of the Python string.  Byte-wise
  lexicographic order on UTF-8 coincides with Python's code-point order on \<open>str\<close>,
  and \<open>len(text.encode("utf-8"))\<close> is \<open>length\<close>.

  A \<open>Path\<close> is the list of the segments of an absolute POSIX path (the command line
  entry point resolves the root before use, and \<open>rglob\<close> yields paths below it).
\<close>

type_synonym path = "string list"

datatype error = UnboundLocalError | ValueError | SystemExit | KeyError | PatternError

fun join :: "string \<Rightarrow> string list \<Rightarrow> string" where
  "join sep [] = []"
| "join sep [x] = x"
| "join sep (x # y # ys) = x @ sep @ join sep (y # ys)"

text \<open>\<open>p.relative_to(root)\<close>: the segments below \<open>root\<close>; raises ValueError (here
  \<open>None\<close>) when \<open>p\<close> is not below \<open>root\<close>.\<close>

definition relative_to :: "path \<Rightarrow> path \<Rightarrow> path option" where
  "relative_to p root = (if prefix root p then Some (drop (length root) p) else None)"

text \<open>\<open>as_posix()\<close> of a relative path; the empty relative path prints as a dot.\<close>

definition as_posix :: "path \<Rightarrow> string" where
  "as_posix rel = (if rel = [] then ''.'' else join ''/'' rel)"

text \<open>\<open>str(p)\<close> of an absolute path.\<close>

definition str_path :: "path \<Rightarrow> string" where
  "str_path p = ''/'' @ join ''/'' p"



section \<open>Metadata\<close>

datatype finding = Finding (ftype: string) (line: nat)

record file_meta =
  path :: string
  size_bytes :: nat
  sha256 :: string
  estimated_tokens :: nat
  potential_secrets :: "finding list"
  content :: "string option"

type_synonym secrets_report = "string \<rightharpoonup> finding list"

text \<open>
  The collaborators of the assembler: the token encoder (\<open>None\<close> when
  \<open>tiktoken.get_encoding\<close> raises; otherwise the length of the encoding of a text),
  the hash, and the file system (\<open>None\<close> when \<open>open\<close>/\<open>read\<close>, respectively
  \<open>stat\<close>, raises).
\<close>

record env =
  get_encoding :: "(string \<Rightarrow> nat) option"
  sha256_text :: "string \<Rightarrow> string"
  read_text :: "path \<Rightarrow> string option"
  stat_size :: "path \<Rightarrow> nat option"

text \<open>The messages written to the terminal, with the values they interpolate.\<close>

datatype event =
    TiktokenInitError
  | FoundFiles nat
  | OversizeWarning string nat "int option"
  | LimitReached "int option" nat
  | WarnThreshold "int option"
  | ErrorReading path

section \<open>Context assembler\<close>

record assembler =
  context_parts :: "string list"
  token_counts :: "nat list"
  parts_meta :: "file_meta list list"
  current_part_builder :: string
  current_token_count :: nat
  current_part_files_meta :: "file_meta list"
  warn_triggered :: bool
  echo :: "event list"

text \<open>The binding of \<open>_count\<close>: when counting is requested and the encoder fails to
  initialise, the handler only prints, and the name stays unbound (\<open>None\<close>).\<close>

definition bind_count :: "env \<Rightarrow> bool \<Rightarrow> (string \<Rightarrow> nat) option \<times> event list" where
  "bind_count e count_tokens =
     (if count_tokens then
        (case get_encoding e of
           Some enc \<Rightarrow> (Some enc, [])
         | None \<Rightarrow> (None, [TiktokenInitError]))
      else (Some (\<lambda>text. 0), []))"

definition header_text :: string where
  "header_text =
     ''The following text is a collection of source code files from a software project. '' @
     ''Each file is delimited by a header line starting with '' @ [CHR 0x22] @
     ''--- FILE: [filepath]'' @ [CHR 0x22] @ ''.\<newline>'' @
     ''Use only this content as the source of truth when answering questions.\<newline>\<newline>''"

definition preliminary_text :: "bool \<Rightarrow> string \<Rightarrow> string" where
  "preliminary_text prompt_no_header tree_view =
     (if \<not> prompt_no_header then header_text else []) @
     (if tree_view \<noteq> [] then
        ''The project structure is as follows:\<newline>'' @ tree_view @ ''\<newline>\<newline>''
      else []) @
     ''<<<\<newline>''"

definition header_path :: string where
  "header_path = ''_aicontext_header_''"

definition header_meta :: "env \<Rightarrow> string \<Rightarrow> nat \<Rightarrow> file_meta" where
  "header_meta e prelim prelim_tokens =
     \<lparr> path = header_path, size_bytes = length prelim, sha256 = sha256_text e prelim,
       estimated_tokens = prelim_tokens, potential_secrets = [], content = None \<rparr>"

definition init_assembler :: "env \<Rightarrow> (string \<Rightarrow> nat) \<Rightarrow> event list \<Rightarrow> string \<Rightarrow> nat \<Rightarrow> assembler" where
  "init_assembler e cnt msgs prelim nfiles =
     (let s = \<lparr> context_parts = [], token_counts = [], parts_meta = [],
                current_part_builder = [], current_token_count = 0,
                current_part_files_meta = [], warn_triggered = False, echo = msgs \<rparr>;
          s = (if prelim \<noteq> [] then
                 s\<lparr> current_part_builder := current_part_builder s @ prelim,
                    current_token_count := current_token_count s + cnt prelim,
                    current_part_files_meta :=
                      current_part_files_meta s @ [header_meta e prelim (cnt prelim)] \<rparr>
               else s)
      in s\<lparr> echo := echo s @ [FoundFiles nfiles] \<rparr>)"

text \<open>The test that closes the current part before a block is inserted.  An
  optional integer is falsy when it is \<open>None\<close> or \<open>0\<close>.\<close>

definition limit_reached :: "int option \<Rightarrow> nat \<Rightarrow> nat \<Rightarrow> bool" where
  "limit_reached max_tokens cur block_tokens =
     (case max_tokens of
        None \<Rightarrow> False
      | Some m \<Rightarrow> m \<noteq> 0 \<and> int (cur + block_tokens) > m \<and> cur > 0)"

definition oversize :: "int option \<Rightarrow> nat \<Rightarrow> bool" where
  "oversize max_tokens block_tokens =
     (case max_tokens of None \<Rightarrow> False | Some m \<Rightarrow> m \<noteq> 0 \<and> int block_tokens > m)"

definition warn_exceeded :: "int option \<Rightarrow> nat \<Rightarrow> bool" where
  "warn_exceeded warn_tokens cur =
     (case warn_tokens of None \<Rightarrow> False | Some w \<Rightarrow> w \<noteq> 0 \<and> int cur > w)"

definition finalize_part :: "assembler \<Rightarrow> assembler" where
  "finalize_part s =
     s\<lparr> context_parts := context_parts s @ [current_part_builder s],
        token_counts := token_counts s @ [current_token_count s],
        parts_meta := parts_meta s @ [current_part_files_meta s] \<rparr>"

definition reset_part :: "assembler \<Rightarrow> assembler" where
  "reset_part s =
     s\<lparr> current_part_builder := [], current_token_count := 0, current_part_files_meta := [] \<rparr>"

definition file_block :: "string \<Rightarrow> string \<Rightarrow> string" where
  "file_block rel text = (''\<newline>--- FILE: '' @ rel @ '' ---\<newline>'') @ text @ ''\<newline>''"

definition get_report :: "secrets_report \<Rightarrow> string \<Rightarrow> finding list" where
  "get_report report k = (case report k of None \<Rightarrow> [] | Some v \<Rightarrow> v)"

definition make_file_meta ::
  "env \<Rightarrow> secrets_report \<Rightarrow> string \<Rightarrow> string \<Rightarrow> nat \<Rightarrow> nat \<Rightarrow> file_meta" where
  "make_file_meta e report rel text block_tokens sz =
     \<lparr> path = rel, size_bytes = sz, sha256 = sha256_text e text,
       estimated_tokens = block_tokens, potential_secrets = get_report report rel,
       content = Some text \<rparr>"

text \<open>The statements of the loop body, in the order of the source.\<close>

definition warn_oversize :: "int option \<Rightarrow> string \<Rightarrow> nat \<Rightarrow> assembler \<Rightarrow> assembler" where
  "warn_oversize max_tokens rel block_tokens s =
     (if oversize max_tokens block_tokens
      then s\<lparr> echo := echo s @ [OversizeWarning rel block_tokens max_tokens] \<rparr>
      else s)"

definition close_part_if_full :: "int option \<Rightarrow> nat \<Rightarrow> assembler \<Rightarrow> assembler" where
  "close_part_if_full max_tokens block_tokens s =
     (if limit_reached max_tokens (current_token_count s) block_tokens
      then (let s = finalize_part s;
                s = s\<lparr> echo := echo s @
                      [LimitReached max_tokens (length (context_parts s) + 1)] \<rparr>
            in reset_part s)
      else s)"

definition insert_block :: "file_meta \<Rightarrow> string \<Rightarrow> nat \<Rightarrow> assembler \<Rightarrow> assembler" where
  "insert_block file_meta block block_tokens s =
     s\<lparr> current_part_files_meta := current_part_files_meta s @ [file_meta],
        current_part_builder := current_part_builder s @ block,
        current_token_count := current_token_count s + block_tokens \<rparr>"

definition warn_threshold :: "int option \<Rightarrow> assembler \<Rightarrow> assembler" where
  "warn_threshold warn_tokens s =
     (if warn_exceeded warn_tokens (current_token_count s) \<and> \<not> warn_triggered s
      then s\<lparr> echo := echo s @ [WarnThreshold warn_tokens], warn_triggered := True \<rparr>
      else s)"

text \<open>
  One iteration of the loop over the files.  Every exception raised inside the
  \<open>try\<close> is caught and reported; what was mutated before it stays mutated, so a
  failing \<open>stat\<close> leaves the part closed by the same iteration closed.
\<close>

definition process_file ::
  "env \<Rightarrow> path \<Rightarrow> secrets_report \<Rightarrow> (string \<Rightarrow> nat) \<Rightarrow> int option \<Rightarrow> int option \<Rightarrow>
   assembler \<Rightarrow> path \<Rightarrow> assembler" where
  "process_file e root report cnt max_tokens warn_tokens s file_path =
     (case relative_to file_path root of
        None \<Rightarrow> s\<lparr> echo := echo s @ [ErrorReading file_path] \<rparr>
      | Some relative_path \<Rightarrow>
     (case read_text e file_path of
        None \<Rightarrow> s\<lparr> echo := echo s @ [ErrorReading file_path] \<rparr>
      | Some text \<Rightarrow>
        let rel = as_posix relative_path;
            block = file_block rel text;
            block_tokens = cnt block;
            s = warn_oversize max_tokens rel block_tokens s;
            s = close_part_if_full max_tokens block_tokens s
        in (case stat_size e file_path of
              None \<Rightarrow> s\<lparr> echo := echo s @ [ErrorReading file_path] \<rparr>
            | Some sz \<Rightarrow>
                warn_threshold warn_tokens
                  (insert_block (make_file_meta e report rel text block_tokens sz)
                     block block_tokens s))))"

definition finish :: "assembler \<Rightarrow> assembler" where
  "finish s =
     (let s = s\<lparr> current_part_builder := current_part_builder s @ ''>>>\<newline>'' \<rparr>
      in if length (current_part_builder s) > 0 then finalize_part s else s)"

text \<open>The whole run of \<open>generate_context\<close>, with the terminal output kept in the state.
  Calling the unbound \<open>_count\<close> on the preliminary text raises outside any handler.\<close>

definition generate_context_run ::
  "env \<Rightarrow> path \<Rightarrow> path list \<Rightarrow> secrets_report \<Rightarrow> bool \<Rightarrow> int option \<Rightarrow> int option \<Rightarrow>
   bool \<Rightarrow> string \<Rightarrow> error + assembler" where
  "generate_context_run e root filtered_files report count_tokens max_tokens warn_tokens
     prompt_no_header tree_view =
     (case bind_count e count_tokens of
        (None, msgs) \<Rightarrow> Inl UnboundLocalError
      | (Some cnt, msgs) \<Rightarrow>
          Inr (finish
            (foldl (process_file e root report cnt max_tokens warn_tokens)
               (init_assembler e cnt msgs (preliminary_text prompt_no_header tree_view)
                  (length filtered_files))
               filtered_files)))"

definition generate_context ::
  "env \<Rightarrow> path \<Rightarrow> path list \<Rightarrow> secrets_report \<Rightarrow> bool \<Rightarrow> int option \<Rightarrow> int option \<Rightarrow>
   bool \<Rightarrow> string \<Rightarrow> error + (string list \<times> nat list \<times> file_meta list list)" where
  "generate_context e root filtered_files report count_tokens max_tokens warn_tokens
     prompt_no_header tree_view =
     (case generate_context_run e root filtered_files report count_tokens max_tokens
             warn_tokens prompt_no_header tree_view of
        Inl err \<Rightarrow> Inl err
      | Inr s \<Rightarrow> Inr (context_parts s, token_counts s, parts_meta s))"


section \<open>Pattern loader and file filter\<close>



text \<open>
  The characters \<open>str.strip()\<close> removes, in UTF-8: the ASCII white space
  (9 to 13, 28 to 32) and the white space beyond ASCII (U+0085, U+00A0, U+1680,
  U+2000 to U+200A, U+2028, U+2029, U+202F, U+205F, U+3000).
\<close>

definition whitespace :: "string list" where
  "whitespace =
     map (\<lambda>c. [c]) [CHR 0x09, CHR 0x0A, CHR 0x0B, CHR 0x0C, CHR 0x0D,
                   CHR 0x1C, CHR 0x1D, CHR 0x1E, CHR 0x1F, CHR 0x20] @
     [[CHR 0xC2, CHR 0x85], [CHR 0xC2, CHR 0xA0], [CHR 0xE1, CHR 0x9A, CHR 0x80]] @
     map (\<lambda>c. [CHR 0xE2, CHR 0x80, c])
       [CHR 0x80, CHR 0x81, CHR 0x82, CHR 0x83, CHR 0x84, CHR 0x85, CHR 0x86, CHR 0x87,
        CHR 0x88, CHR 0x89, CHR 0x8A, CHR 0xA8, CHR 0xA9, CHR 0xAF] @
     [[CHR 0xE2, CHR 0x81, CHR 0x9F], [CHR 0xE3, CHR 0x80, CHR 0x80]]"

function lstrip_of :: "string list \<Rightarrow> string \<Rightarrow> string" where
  "lstrip_of ws s =
     (case find (\<lambda>w. w \<noteq> [] \<and> prefix w s) ws of
        None \<Rightarrow> s
      | Some w \<Rightarrow> lstrip_of ws (drop (length w) s))"
  by pat_completeness auto
termination
proof (relation "measure (\<lambda>(ws, s). length s)")
  show "wf (measure (\<lambda>(ws, s). length s))" by simp
next
  fix ws :: "string list" and s w :: string
  assume "find (\<lambda>w. w \<noteq> [] \<and> prefix w s) ws = Some w"
  then have "w \<noteq> []" "prefix w s" by (auto simp: find_Some_iff)
  then have "s \<noteq> []" by auto
  with \<open>w \<noteq> []\<close> show "((ws, drop (length w) s), (ws, s)) \<in> measure (\<lambda>(ws, s). length s)"
    by simp
qed

declare lstrip_of.simps [simp del]

definition strip :: "string \<Rightarrow> string" where
  "strip s = rev (lstrip_of (map rev whitespace) (rev (lstrip_of whitespace s)))"








section \<open>Tree renderer\<close>

text \<open>The nested dictionary: the entries of a level in insertion order.\<close>

datatype tree = Node (children: "(string \<times> tree) list")

text \<open>\<open>current_level[part]\<close> after \<open>if part not in current_level: current_level[part] = {}\<close>.\<close>

definition sublevel :: "tree \<Rightarrow> string \<Rightarrow> tree" where
  "sublevel t part = (case map_of (children t) part of None \<Rightarrow> Node [] | Some sub \<Rightarrow> sub)"

fun insert_parts :: "string list \<Rightarrow> tree \<Rightarrow> tree" where
  "insert_parts [] t = t"
| "insert_parts (part # parts) t =
     Node (AList.update part (insert_parts parts (sublevel t part)) (children t))"















text \<open>The tree after inserting a list of paths into a given tree.\<close>

definition ins_all :: "tree \<Rightarrow> string list list \<Rightarrow> tree" where
  "ins_all t ps = foldl (\<lambda>tree parts. insert_parts parts tree) t ps"

section \<open>Secret scanner adapter\<close>

text \<open>A finding of the external classifier (\<open>PotentialSecret\<close>).\<close>

record secret =
  secret_type :: string
  line_number :: nat
  secret_value :: "string option"

text \<open>
  The classifier is a collaborator: given the names of the files to scan (the
  \<open>str\<close> of each path) it returns its collection, a dictionary from file name to
  the findings in that file, or raises (\<open>None\<close>).  The adapter copies the
  collection into the report under the very keys of the collection.
\<close>

definition add_secret :: "string \<Rightarrow> secrets_report \<Rightarrow> secret \<Rightarrow> secrets_report" where
  "add_secret rel_path report secret =
     report(rel_path \<mapsto> get_report report rel_path @
              [Finding (secret_type secret) (line_number secret)])"

definition add_file_secrets :: "secrets_report \<Rightarrow> string \<times> secret list \<Rightarrow> secrets_report" where
  "add_file_secrets report item =
     (case item of (file_path, secrets_set) \<Rightarrow>
        let rel_path = file_path;
            report = (if report rel_path = None then report(rel_path \<mapsto> []) else report)
        in foldl (add_secret rel_path) report secrets_set)"

definition checkSecurityIssue ::
  "(string list \<Rightarrow> (string \<times> secret list) list option) \<Rightarrow> path list \<Rightarrow> secrets_report" where
  "checkSecurityIssue scan_files filtered_files =
     (case scan_files (map str_path filtered_files) of
        None \<Rightarrow> Map.empty
      | Some secrets_found \<Rightarrow> foldl add_file_secrets Map.empty secrets_found)"

section \<open>Interactive selection\<close>



section \<open>Command line\<close>


text \<open>The value of \<open>filtered_files\<close>: the list the filter returns, or the set the
  selector returns.  \<open>not filtered_files\<close> holds of the empty one; a loop over
  it takes a list in its own order and a set in the order of the interpreter.\<close>

datatype files = FileList "path list" | FileSet "path set"





section \<open>The project of the test suite\<close>

text \<open>The files the tests create below their temporary root, here \<open>/proj\<close>, with
  their contents; every other path is absent, so reading it raises.\<close>

definition project_root :: path where
  "project_root = [''proj'']"

definition main_py :: path where
  "main_py = [''proj'', ''src'', ''main.py'']"

definition utils_js :: path where
  "utils_js = [''proj'', ''src'', ''utils.js'']"

definition project_structure :: "(path \<times> string) list" where
  "project_structure =
     [(main_py, ''print('hello')''),
      (utils_js, ''console.log('hello');''),
      ([''proj'', ''docs'', ''guide.md''], ''# Guide''),
      ([''proj'', ''node_modules'', ''lib.js''], ''// lib''),
      ([''proj'', ''.env''], ''SECRET=123''),
      ([''proj'', ''config.json''], ''{'' @ [CHR 0x22] @ ''key'' @ [CHR 0x22] @ '': '' @
         [CHR 0x22] @ ''value'' @ [CHR 0x22] @ ''}''),
      ([''proj'', ''.gitignore''], ''.env\<newline>docs/''),
      ([''proj'', ''.contextignore''], ''config.json'')]"

text \<open>A classifier that finds a keyword on line 1 of \<open>src/main.py\<close> and files the
  finding under the name it was given for that file.\<close>

definition keyword_scan :: "string list \<Rightarrow> (string \<times> secret list) list option" where
  "keyword_scan filenames =
     Some (map (\<lambda>n. (n, [\<lparr> secret_type = ''Secret Keyword'', line_number = 1,
                           secret_value = None \<rparr>]))
             (filter (\<lambda>n. n = str_path main_py) filenames))"

text \<open>A file that has disappeared from the tree.\<close>

definition ghost_py :: path where
  "ghost_py = [''proj'', ''src'', ''ghost.py'']"

definition stub_sha256 :: "string \<Rightarrow> string" where
  "stub_sha256 text = ''sha256:'' @ text"

definition project_env :: "(string \<Rightarrow> nat) option \<Rightarrow> env" where
  "project_env enc =
     \<lparr> get_encoding = enc, sha256_text = stub_sha256,
       read_text = map_of project_structure,
       stat_size = map_option length \<circ> map_of project_structure \<rparr>"









text \<open>The encoder of the splitting test: every text costs 15 tokens.\<close>

definition mock_encoding :: "string \<Rightarrow> nat" where
  "mock_encoding text = 15"

section \<open>Notions used to state the properties\<close>

text \<open>The token cost recorded in a list of metadata entries.\<close>

definition cost :: "file_meta list \<Rightarrow> nat" where
  "cost ms = sum_list (map estimated_tokens ms)"

text \<open>A closed part is well formed for the budget \<open>m\<close>: its text is not empty, its
  count is the sum of the costs of its entries, and it is within the budget unless
  every entry before its last one costs nothing.\<close>

definition part_ok :: "int \<Rightarrow> string \<times> nat \<times> file_meta list \<Rightarrow> bool" where
  "part_ok m p = (case p of (text, c, ms) \<Rightarrow>
      text \<noteq> [] \<and> c = cost ms \<and>
      (int c \<le> m \<or> (\<forall>x \<in> set (butlast ms). estimated_tokens x = 0)))"

text \<open>The closed parts of a state, and the same conditions on the part being built.\<close>

definition finalized :: "assembler \<Rightarrow> (string \<times> nat \<times> file_meta list) list" where
  "finalized s = zip (context_parts s) (zip (token_counts s) (parts_meta s))"

definition current_ok :: "int \<Rightarrow> assembler \<Rightarrow> bool" where
  "current_ok m s \<longleftrightarrow>
     current_token_count s = cost (current_part_files_meta s) \<and>
     (current_part_files_meta s \<noteq> [] \<longrightarrow> current_part_builder s \<noteq> []) \<and>
     (int (current_token_count s) \<le> m \<or>
      (\<forall>x \<in> set (butlast (current_part_files_meta s)). estimated_tokens x = 0))"

definition budget_inv :: "int \<Rightarrow> assembler \<Rightarrow> bool" where
  "budget_inv m s \<longleftrightarrow>
     length (token_counts s) = length (context_parts s) \<and>
     length (parts_meta s) = length (context_parts s) \<and>
     list_all (part_ok m) (finalized s) \<and> current_ok m s"

text \<open>Two states that differ at most in the terminal output.\<close>

definition same_result :: "assembler \<Rightarrow> assembler \<Rightarrow> bool" where
  "same_result s t \<longleftrightarrow>
     context_parts s = context_parts t \<and> token_counts s = token_counts t \<and>
     parts_meta s = parts_meta t \<and> current_part_builder s = current_part_builder t \<and>
     current_token_count s = current_token_count t \<and>
     current_part_files_meta s = current_part_files_meta t \<and>
     warn_triggered s = warn_triggered t"

text \<open>The counter is bound: counting is off, or the encoder initialised.\<close>

definition counter_bound :: "env \<Rightarrow> bool \<Rightarrow> bool" where
  "counter_bound e count_tokens \<longleftrightarrow> (count_tokens \<longrightarrow> get_encoding e \<noteq> None)"






section \<open>Evaluation on the test project\<close>

lemmas assembler_defs =
  generate_context_def generate_context_run_def bind_count_def init_assembler_def
  preliminary_text_def process_file_def relative_to_def as_posix_def file_block_def
  oversize_def limit_reached_def warn_exceeded_def get_report_def finish_def
  finalize_part_def reset_part_def make_file_meta_def header_meta_def Let_def
  warn_oversize_def close_part_if_full_def insert_block_def warn_threshold_def

lemmas project_defs =
  project_env_def project_structure_def project_root_def main_py_def utils_js_def
  mock_encoding_def

section \<open>Degraded token counting\<close>

text \<open>
  C1.  Token counting enabled and the encoder failing to initialise: the handler
  prints and leaves \<open>_count\<close> unbound, so the first use of the counter, on the
  preliminary text, raises outside any handler and no part is returned, whatever
  the other arguments are.  The run does not degrade to zero counts.
\<close>

theorem encoder_failure_aborts:
  "generate_context (e\<lparr>get_encoding := None\<rparr>) root filtered_files report True
     max_tokens warn_tokens prompt_no_header tree_view = Inl UnboundLocalError"
  by (simp add: generate_context_def generate_context_run_def bind_count_def)

section \<open>Concatenation\<close>

text \<open>
  C3 as stated fails: the single part of the run over \<open>src/main.py\<close> with the header
  suppressed is not the bare block of the claim.
\<close>

theorem concatenation_counterexample:
  "map_sum id fst
     (generate_context (project_env None) project_root [main_py] Map.empty False None None
        True []) \<noteq>
   Inr [''--- FILE: src/main.py ---\<newline>\<newline>print('hello')\<newline>\<newline>'']"
  by (simp add: assembler_defs project_defs)

text \<open>
  C3, amended.  Assembling the single file \<open>src/main.py\<close> containing
  \<open>print('hello')\<close>, with the header suppressed and no tree, yields exactly one
  part: the opening sentinel line, an empty line, the line
  \<open>--- FILE: src/main.py ---\<close>, the raw content, a newline, and the closing
  sentinel line.  Its token count is 0 and its metadata holds the header entry and
  the entry of the file.
\<close>

theorem concatenation_exact:
  "generate_context (project_env enc) project_root [main_py] Map.empty False None None True [] =
   Inr ([''<<<\<newline>'' @ ''\<newline>--- FILE: src/main.py ---\<newline>'' @ ''print('hello')'' @
           ''\<newline>'' @ ''>>>\<newline>''],
        [0],
        [[\<lparr> path = ''_aicontext_header_'', size_bytes = 4, sha256 = stub_sha256 ''<<<\<newline>'',
            estimated_tokens = 0, potential_secrets = [], content = None \<rparr>,
          \<lparr> path = ''src/main.py'', size_bytes = 14, sha256 = stub_sha256 ''print('hello')'',
            estimated_tokens = 0, potential_secrets = [],
            content = Some ''print('hello')'' \<rparr>]])"
  by (simp add: assembler_defs project_defs header_path_def)

section \<open>The budget invariant\<close>

lemma cost_zero: "cost ms = 0 \<Longrightarrow> x \<in> set ms \<Longrightarrow> estimated_tokens x = 0"
  by (induction ms) (auto simp: cost_def)

lemma cost_pos_nonempty: "0 < cost ms \<Longrightarrow> ms \<noteq> []"
  by (auto simp: cost_def)

lemma file_block_nonempty: "file_block rel text \<noteq> []"
  by (simp add: file_block_def)

lemma finalized_finalize_part:
  assumes "length (token_counts s) = length (context_parts s)"
    "length (parts_meta s) = length (context_parts s)"
  shows "finalized (finalize_part s) =
         finalized s @ [(current_part_builder s, current_token_count s, current_part_files_meta s)]"
  using assms by (simp add: finalized_def finalize_part_def)

lemma current_ok_part_ok:
  "current_ok m s \<Longrightarrow> current_part_builder s \<noteq> [] \<Longrightarrow>
   part_ok m (current_part_builder s, current_token_count s, current_part_files_meta s)"
  by (auto simp: current_ok_def part_ok_def)

lemma budget_inv_finalize_part:
  assumes "budget_inv m s" "current_part_builder s \<noteq> []"
  shows "length (token_counts (finalize_part s)) = length (context_parts (finalize_part s))"
    "length (parts_meta (finalize_part s)) = length (context_parts (finalize_part s))"
    "list_all (part_ok m) (finalized (finalize_part s))"
proof -
  from assms(1) have l: "length (token_counts s) = length (context_parts s)"
    "length (parts_meta s) = length (context_parts s)"
    and a: "list_all (part_ok m) (finalized s)" and c: "current_ok m s"
    by (simp_all add: budget_inv_def)
  show "length (token_counts (finalize_part s)) = length (context_parts (finalize_part s))"
    "length (parts_meta (finalize_part s)) = length (context_parts (finalize_part s))"
    using l by (simp_all add: finalize_part_def)
  show "list_all (part_ok m) (finalized (finalize_part s))"
    using a current_ok_part_ok[OF c assms(2)] by (simp add: finalized_finalize_part[OF l])
qed


lemma current_ok_builder: "current_ok m s \<Longrightarrow> 0 < current_token_count s \<Longrightarrow> current_part_builder s \<noteq> []"
  using cost_pos_nonempty by (auto simp: current_ok_def)

lemma current_ok_reset: "current_ok m (reset_part s)"
  by (simp add: current_ok_def reset_part_def cost_def)

lemma budget_inv_echo: "budget_inv m (s\<lparr>echo := ev\<rparr>) = budget_inv m s"
  by (simp add: budget_inv_def finalized_def current_ok_def)

lemma budget_inv_reset:
  assumes "length (token_counts s) = length (context_parts s)"
    "length (parts_meta s) = length (context_parts s)"
    "list_all (part_ok m) (finalized s)"
  shows "budget_inv m (reset_part s)"
  using assms current_ok_reset[of m s]
  by (simp add: budget_inv_def) (simp add: reset_part_def finalized_def)

lemma budget_inv_close:
  assumes "budget_inv m s" "0 < current_token_count s"
  shows "budget_inv m (reset_part (finalize_part s\<lparr>echo := ev\<rparr>))"
proof -
  have b: "current_part_builder s \<noteq> []"
    using assms current_ok_builder[of m s] by (simp add: budget_inv_def)
  have "budget_inv m (reset_part (finalize_part s))"
    by (rule budget_inv_reset) (rule budget_inv_finalize_part[OF assms(1) b])+
  then show ?thesis
    by (simp add: budget_inv_def finalized_def current_ok_def reset_part_def)
qed

lemma current_ok_append:
  assumes "current_ok m s" "\<not> limit_reached (Some m) (current_token_count s) b" "m \<noteq> 0"
    "estimated_tokens fm = b" "blk \<noteq> []"
  shows "current_ok m (s\<lparr> current_part_files_meta := current_part_files_meta s @ [fm],
                         current_part_builder := current_part_builder s @ blk,
                         current_token_count := current_token_count s + b \<rparr>)"
proof -
  let ?ms = "current_part_files_meta s"
  from assms(1) have c: "current_token_count s = cost ?ms" by (simp add: current_ok_def)
  from assms(2,3) have d: "int (current_token_count s + b) \<le> m \<or> current_token_count s = 0"
    by (simp add: limit_reached_def) linarith
  have z: "\<forall>x\<in>set ?ms. estimated_tokens x = 0" if "current_token_count s = 0"
    using that c cost_zero[of ?ms] by simp
  have 1: "current_token_count s + b = cost (?ms @ [fm])"
    using c assms(4) by (simp add: cost_def)
  have 2: "int (current_token_count s + b) \<le> m \<or>
           (\<forall>x \<in> set (butlast (?ms @ [fm])). estimated_tokens x = 0)"
    using d z by auto
  show ?thesis
    unfolding current_ok_def using 1 2 assms(5) by simp
qed

lemma budget_inv_append:
  assumes "budget_inv m s" "\<not> limit_reached (Some m) (current_token_count s) b" "m \<noteq> 0"
    "estimated_tokens fm = b" "blk \<noteq> []"
  shows "budget_inv m (s\<lparr> current_part_files_meta := current_part_files_meta s @ [fm],
                         current_part_builder := current_part_builder s @ blk,
                         current_token_count := current_token_count s + b \<rparr>)"
proof -
  from assms(1) have c: "current_ok m s" by (simp add: budget_inv_def)
  show ?thesis
    using assms(1) current_ok_append[OF c assms(2-5)]
    by (simp add: budget_inv_def finalized_def)
qed

lemma limit_reached_zero: "\<not> limit_reached mx 0 b"
  by (simp add: limit_reached_def split: option.splits)


lemma budget_inv_warn_oversize:
  "budget_inv m (warn_oversize mx rel b s) = budget_inv m s"
  by (simp add: warn_oversize_def budget_inv_echo)

lemma budget_inv_close_part_if_full:
  assumes "budget_inv m s"
  shows "budget_inv m (close_part_if_full mx b s)"
proof (cases "limit_reached mx (current_token_count s) b")
  case True
  then have "0 < current_token_count s" by (simp add: limit_reached_def split: option.splits)
  from budget_inv_close[OF assms this] True show ?thesis
    by (simp add: close_part_if_full_def Let_def)
next
  case False
  then show ?thesis using assms by (simp add: close_part_if_full_def)
qed

lemma not_limit_reached_after_close:
  "\<not> limit_reached mx (current_token_count (close_part_if_full mx b s)) b"
  by (simp add: close_part_if_full_def Let_def reset_part_def limit_reached_zero)

lemma budget_inv_warn_threshold:
  "budget_inv m (warn_threshold wn s) = budget_inv m s"
  by (simp add: warn_threshold_def budget_inv_def finalized_def current_ok_def)

lemma budget_inv_insert_block:
  assumes "budget_inv m s" "\<not> limit_reached (Some m) (current_token_count s) b" "m \<noteq> 0"
    "estimated_tokens fm = b" "blk \<noteq> []"
  shows "budget_inv m (insert_block fm blk b s)"
  unfolding insert_block_def by (rule budget_inv_append[OF assms])

lemma budget_inv_process_file:
  assumes "budget_inv m s" "m \<noteq> 0"
  shows "budget_inv m (process_file e root report cnt (Some m) wn s f)"
proof (cases "relative_to f root")
  case None
  then show ?thesis using assms by (simp add: process_file_def budget_inv_echo)
next
  case rel: (Some rel)
  show ?thesis
  proof (cases "read_text e f")
    case None
    then show ?thesis using assms rel by (simp add: process_file_def budget_inv_echo)
  next
    case rd: (Some body)
    define b where "b = cnt (file_block (as_posix rel) body)"
    define s2 where "s2 = close_part_if_full (Some m) b (warn_oversize (Some m) (as_posix rel) b s)"
    have i2: "budget_inv m s2"
      unfolding s2_def using assms(1)
      by (simp add: budget_inv_close_part_if_full budget_inv_warn_oversize)
    have nl: "\<not> limit_reached (Some m) (current_token_count s2) b"
      unfolding s2_def by (rule not_limit_reached_after_close)
    have i3: "budget_inv m (insert_block (make_file_meta e report (as_posix rel) body b sz)
                 (file_block (as_posix rel) body) b s2)" for sz
      by (rule budget_inv_insert_block[OF i2 nl assms(2)])
         (simp_all add: make_file_meta_def file_block_nonempty)
    show ?thesis
      using i2 i3
      by (simp add: process_file_def rel rd Let_def b_def[symmetric] s2_def[symmetric]
          budget_inv_echo budget_inv_warn_threshold split: option.splits)
  qed
qed

lemma budget_inv_foldl:
  "budget_inv m s \<Longrightarrow> m \<noteq> 0 \<Longrightarrow>
   budget_inv m (foldl (process_file e root report cnt (Some m) wn) s fs)"
  by (induction fs arbitrary: s) (simp_all add: budget_inv_process_file)

lemma budget_inv_init:
  "budget_inv m (init_assembler e cnt msgs (preliminary_text nh tv) n)"
  by (simp add: budget_inv_def init_assembler_def Let_def finalized_def current_ok_def
      cost_def header_meta_def preliminary_text_def)

lemma budget_inv_finish:
  assumes "budget_inv m s"
  shows "length (token_counts (finish s)) = length (context_parts (finish s))"
    "length (parts_meta (finish s)) = length (context_parts (finish s))"
    "list_all (part_ok m) (finalized (finish s))"
proof -
  let ?t = "s\<lparr> current_part_builder := current_part_builder s @ ''>>>\<newline>'' \<rparr>"
  have t: "budget_inv m ?t" using assms
    by (auto simp: budget_inv_def finalized_def current_ok_def)
  have f: "finish s = finalize_part ?t" by (simp add: finish_def Let_def)
  show "length (token_counts (finish s)) = length (context_parts (finish s))"
    "length (parts_meta (finish s)) = length (context_parts (finish s))"
    "list_all (part_ok m) (finalized (finish s))"
    unfolding f by (rule budget_inv_finalize_part[OF t], simp)+
qed


lemma list_all_finalized_nth:
  assumes "length cs = length ps" "length ms = length ps"
    "list_all P (zip ps (zip cs ms))" "i < length ps"
  shows "P (ps ! i, cs ! i, ms ! i)"
  using assms by (simp add: list_all_length)

lemma context_parts_process_file:
  assumes "relative_to f root = Some rel" "read_text e f = Some body"
  shows "context_parts (process_file e root report cnt mx wn s f) =
         (if limit_reached mx (current_token_count s) (cnt (file_block (as_posix rel) body))
          then context_parts s @ [current_part_builder s] else context_parts s)"
  using assms
  by (simp add: process_file_def Let_def close_part_if_full_def warn_oversize_def
      warn_threshold_def insert_block_def finalize_part_def reset_part_def
      split: option.splits)

lemma budget_invariant_result:
  assumes "m \<noteq> 0"
    and run: "generate_context e root fs report ct (Some m) wn nh tv = Inr (parts, counts, metas)"
  shows "length counts = length parts \<and> length metas = length parts \<and>
         (\<forall>i < length parts. part_ok m (parts ! i, counts ! i, metas ! i))"
proof -
  from run obtain cnt msgs where bc: "bind_count e ct = (Some cnt, msgs)"
    by (cases "bind_count e ct")
       (auto simp: generate_context_def generate_context_run_def split: option.splits)
  define r where "r = finish (foldl (process_file e root report cnt (Some m) wn)
               (init_assembler e cnt msgs (preliminary_text nh tv) (length fs)) fs)"
  have r: "parts = context_parts r" "counts = token_counts r" "metas = parts_meta r"
    using run bc by (simp_all add: generate_context_def generate_context_run_def r_def)
  have inv: "budget_inv m (foldl (process_file e root report cnt (Some m) wn)
               (init_assembler e cnt msgs (preliminary_text nh tv) (length fs)) fs)"
    by (rule budget_inv_foldl[OF budget_inv_init assms(1)])
  note fin = budget_inv_finish[OF inv, folded r_def]
  have l1: "length counts = length parts" and l2: "length metas = length parts"
    using fin(1,2) by (simp_all add: r)
  have all: "list_all (part_ok m) (zip parts (zip counts metas))"
    using fin(3) by (simp add: finalized_def r)
  show ?thesis
    using l1 l2 list_all_finalized_nth[OF l1 l2 all] by blast
qed

text \<open>
  C4 as stated fails: with every text costing 15 tokens and a budget of 10, the
  run over one file closes two parts of 15 tokens each; the first exceeds the
  budget and holds no file block at all, only the header entry.
\<close>

theorem budget_counterexample:
  "map_sum id (fst \<circ> snd)
     (generate_context (project_env (Some mock_encoding)) project_root [main_py]
        Map.empty True (Some 10) None True []) = Inr [15, 15]
 \<and> map_sum id (map (map path) \<circ> snd \<circ> snd)
     (generate_context (project_env (Some mock_encoding)) project_root [main_py]
        Map.empty True (Some 10) None True []) = Inr [[header_path], [''src/main.py'']]
 \<and> \<not> int 15 \<le> 10"
  by (simp add: assembler_defs project_defs)

text \<open>
  C4, amended.  With a budget \<open>m\<close> configured (not zero), the assembler closes the
  current part before inserting the block of a file it could read if and only if the
  running count is positive and adding the cost of the block would exceed the
  budget.  Consequently, in the result the three lists have one entry per part,
  no part has empty text, the count of a part is the sum of the costs of its
  entries, and every part is within the budget or carries its whole count in its
  last entry (every earlier entry costs nothing); that entry is the header entry
  or a file block.
\<close>

theorem budget_split_invariant:
  assumes "m \<noteq> 0"
  shows "(\<forall>rel body. relative_to f root = Some rel \<longrightarrow> read_text e f = Some body \<longrightarrow>
            context_parts (process_file e root report cnt (Some m) wn s f) =
              (if 0 < current_token_count s \<and>
                  m < int (current_token_count s + cnt (file_block (as_posix rel) body))
               then context_parts s @ [current_part_builder s] else context_parts s))
       \<and> (\<forall>parts counts metas.
            generate_context e root fs report ct (Some m) wn nh tv = Inr (parts, counts, metas) \<longrightarrow>
            length counts = length parts \<and> length metas = length parts \<and>
            (\<forall>i < length parts.
               parts ! i \<noteq> [] \<and> counts ! i = cost (metas ! i) \<and>
               (int (counts ! i) \<le> m \<or>
                (\<forall>x \<in> set (butlast (metas ! i)). estimated_tokens x = 0))))"
proof -
  have step: "context_parts (process_file e root report cnt (Some m) wn s f) =
              (if 0 < current_token_count s \<and>
                  m < int (current_token_count s + cnt (file_block (as_posix rel) body))
               then context_parts s @ [current_part_builder s] else context_parts s)"
    if "relative_to f root = Some rel" "read_text e f = Some body" for rel body
    using that assms by (auto simp: context_parts_process_file limit_reached_def)
  have res: "length counts = length parts \<and> length metas = length parts \<and>
            (\<forall>i < length parts.
               parts ! i \<noteq> [] \<and> counts ! i = cost (metas ! i) \<and>
               (int (counts ! i) \<le> m \<or>
                (\<forall>x \<in> set (butlast (metas ! i)). estimated_tokens x = 0)))"
    if "generate_context e root fs report ct (Some m) wn nh tv = Inr (parts, counts, metas)"
    for parts counts metas
    using budget_invariant_result[OF assms that] unfolding part_ok_def prod.case .
  from step res show ?thesis by blast
qed

theorem budget_split_invariant_witness:
  "(20::int) \<noteq> 0 \<and>
   (\<exists>parts counts metas.
      generate_context (project_env (Some mock_encoding)) project_root [main_py, utils_js]
        Map.empty True (Some 20) None True [] = Inr (parts, counts, metas) \<and>
      length parts = 3 \<and> length counts = length parts \<and> length metas = length parts \<and>
      (\<forall>i < length parts.
         parts ! i \<noteq> [] \<and> counts ! i = cost (metas ! i) \<and>
         (int (counts ! i) \<le> 20 \<or>
          (\<forall>x \<in> set (butlast (metas ! i)). estimated_tokens x = 0))))"
proof -
  have nz: "(20::int) \<noteq> 0" by simp
  obtain parts counts metas where
    run: "generate_context (project_env (Some mock_encoding)) project_root [main_py, utils_js]
            Map.empty True (Some 20) None True [] = Inr (parts, counts, metas)"
    and len: "length parts = 3"
    by (simp add: assembler_defs project_defs)
  from budget_split_invariant[OF nz, where e = "project_env (Some mock_encoding)"
      and root = project_root and fs = "[main_py, utils_js]" and report = Map.empty
      and ct = True and wn = None and nh = True and tv = "[]"] run
  have "length counts = length parts \<and> length metas = length parts \<and>
      (\<forall>i < length parts.
         parts ! i \<noteq> [] \<and> counts ! i = cost (metas ! i) \<and>
         (int (counts ! i) \<le> 20 \<or>
          (\<forall>x \<in> set (butlast (metas ! i)). estimated_tokens x = 0)))"
    by blast
  with nz run len show ?thesis by blast
qed

section \<open>The statements of the loop body, field by field\<close>

lemma warn_oversize_fields [simp]:
  "context_parts (warn_oversize mx rel b s) = context_parts s"
  "token_counts (warn_oversize mx rel b s) = token_counts s"
  "parts_meta (warn_oversize mx rel b s) = parts_meta s"
  "current_part_builder (warn_oversize mx rel b s) = current_part_builder s"
  "current_token_count (warn_oversize mx rel b s) = current_token_count s"
  "current_part_files_meta (warn_oversize mx rel b s) = current_part_files_meta s"
  by (simp_all add: warn_oversize_def)

lemma warn_threshold_fields [simp]:
  "context_parts (warn_threshold wn s) = context_parts s"
  "token_counts (warn_threshold wn s) = token_counts s"
  "parts_meta (warn_threshold wn s) = parts_meta s"
  "current_part_builder (warn_threshold wn s) = current_part_builder s"
  "current_token_count (warn_threshold wn s) = current_token_count s"
  "current_part_files_meta (warn_threshold wn s) = current_part_files_meta s"
  by (simp_all add: warn_threshold_def)

lemma insert_block_fields [simp]:
  "context_parts (insert_block fm blk b s) = context_parts s"
  "token_counts (insert_block fm blk b s) = token_counts s"
  "parts_meta (insert_block fm blk b s) = parts_meta s"
  "current_part_builder (insert_block fm blk b s) = current_part_builder s @ blk"
  "current_token_count (insert_block fm blk b s) = current_token_count s + b"
  "current_part_files_meta (insert_block fm blk b s) = current_part_files_meta s @ [fm]"
  by (simp_all add: insert_block_def)

lemma close_part_if_full_fields:
  "context_parts (close_part_if_full mx b s) =
     (if limit_reached mx (current_token_count s) b
      then context_parts s @ [current_part_builder s] else context_parts s)"
  "token_counts (close_part_if_full mx b s) =
     (if limit_reached mx (current_token_count s) b
      then token_counts s @ [current_token_count s] else token_counts s)"
  "parts_meta (close_part_if_full mx b s) =
     (if limit_reached mx (current_token_count s) b
      then parts_meta s @ [current_part_files_meta s] else parts_meta s)"
  "current_part_builder (close_part_if_full mx b s) =
     (if limit_reached mx (current_token_count s) b then [] else current_part_builder s)"
  "current_token_count (close_part_if_full mx b s) =
     (if limit_reached mx (current_token_count s) b then 0 else current_token_count s)"
  "current_part_files_meta (close_part_if_full mx b s) =
     (if limit_reached mx (current_token_count s) b then [] else current_part_files_meta s)"
  by (simp_all add: close_part_if_full_def finalize_part_def reset_part_def Let_def)

lemma finish_fields:
  "context_parts (finish s) = context_parts s @ [current_part_builder s @ ''>>>\<newline>'']"
  "token_counts (finish s) = token_counts s @ [current_token_count s]"
  "parts_meta (finish s) = parts_meta s @ [current_part_files_meta s]"
  by (simp_all add: finish_def finalize_part_def Let_def)

lemma init_assembler_fields:
  "prelim \<noteq> [] \<Longrightarrow> context_parts (init_assembler e cnt msgs prelim n) = []"
  "prelim \<noteq> [] \<Longrightarrow> token_counts (init_assembler e cnt msgs prelim n) = []"
  "prelim \<noteq> [] \<Longrightarrow> parts_meta (init_assembler e cnt msgs prelim n) = []"
  "prelim \<noteq> [] \<Longrightarrow> current_part_builder (init_assembler e cnt msgs prelim n) = prelim"
  "prelim \<noteq> [] \<Longrightarrow> current_token_count (init_assembler e cnt msgs prelim n) = cnt prelim"
  "prelim \<noteq> [] \<Longrightarrow> current_part_files_meta (init_assembler e cnt msgs prelim n) =
     [header_meta e prelim (cnt prelim)]"
  by (simp_all add: init_assembler_def Let_def)

lemma process_file_ok:
  assumes "relative_to f root = Some r" "read_text e f = Some b" "stat_size e f = Some z"
  shows "process_file e root report cnt mx wn s f =
         warn_threshold wn
           (insert_block (make_file_meta e report (as_posix r) b (cnt (file_block (as_posix r) b)) z)
              (file_block (as_posix r) b) (cnt (file_block (as_posix r) b))
              (close_part_if_full mx (cnt (file_block (as_posix r) b))
                 (warn_oversize mx (as_posix r) (cnt (file_block (as_posix r) b)) s)))"
  using assms by (simp add: process_file_def Let_def)

section \<open>Two files under a budget of 20\<close>

text \<open>
  C5 as stated fails: with every text costing 15 tokens and a budget of 20, two
  files do not give 2 parts, with the header suppressed or not.
\<close>

theorem two_files_counterexample:
  "map_sum id (length \<circ> fst)
     (generate_context (project_env (Some mock_encoding)) project_root [main_py, utils_js]
        Map.empty True (Some 20) None True []) \<noteq> Inr 2
 \<and> map_sum id (length \<circ> fst)
     (generate_context (project_env (Some mock_encoding)) project_root [main_py, utils_js]
        Map.empty True (Some 20) None False []) \<noteq> Inr 2"
  by (simp add: assembler_defs project_defs)

text \<open>
  C5, amended.  With the stubbed encoder that prices every text at 15 tokens and a
  budget of 20, assembling two files that can be processed produces exactly 3
  parts: the first holds only the preliminary text (which always ends with the
  opening sentinel and costs 15 like any text) and the header entry, the second
  exactly the block of the first file, the third exactly the block of the second
  file followed by the closing sentinel; each part counts 15 tokens.
\<close>

theorem two_files_three_parts:
  assumes "get_encoding e = Some mock_encoding"
    and "relative_to f1 root = Some r1" "read_text e f1 = Some b1" "stat_size e f1 = Some z1"
    and "relative_to f2 root = Some r2" "read_text e f2 = Some b2" "stat_size e f2 = Some z2"
  shows "generate_context e root [f1, f2] report True (Some 20) warn_tokens prompt_no_header
           tree_view =
         Inr ([preliminary_text prompt_no_header tree_view,
               file_block (as_posix r1) b1,
               file_block (as_posix r2) b2 @ ''>>>\<newline>''],
              [15, 15, 15],
              [[header_meta e (preliminary_text prompt_no_header tree_view) 15],
               [make_file_meta e report (as_posix r1) b1 15 z1],
               [make_file_meta e report (as_posix r2) b2 15 z2]])"
proof -
  have p: "preliminary_text prompt_no_header tree_view \<noteq> []"
    by (simp add: preliminary_text_def)
  have bc: "bind_count e True = (Some mock_encoding, [])"
    using assms(1) by (simp add: bind_count_def)
  have l: "limit_reached (Some 20) 15 15" "\<not> limit_reached (Some 20) 0 15"
    by (simp_all add: limit_reached_def)
  show ?thesis
    by (simp add: generate_context_def generate_context_run_def bc
        process_file_ok[OF assms(2-4)] process_file_ok[OF assms(5-7)]
        finish_fields close_part_if_full_fields init_assembler_fields[OF p] l
        mock_encoding_def)
qed

theorem two_files_three_parts_witness:
  "get_encoding (project_env (Some mock_encoding)) = Some mock_encoding \<and>
   relative_to main_py project_root = Some [''src'', ''main.py''] \<and>
   read_text (project_env (Some mock_encoding)) main_py = Some ''print('hello')'' \<and>
   stat_size (project_env (Some mock_encoding)) main_py = Some 14 \<and>
   relative_to utils_js project_root = Some [''src'', ''utils.js''] \<and>
   read_text (project_env (Some mock_encoding)) utils_js = Some ''console.log('hello');'' \<and>
   stat_size (project_env (Some mock_encoding)) utils_js = Some 21 \<and>
   generate_context (project_env (Some mock_encoding)) project_root [main_py, utils_js]
     Map.empty True (Some 20) None True [] =
   Inr ([''<<<\<newline>'',
         ''\<newline>--- FILE: src/main.py ---\<newline>print('hello')\<newline>'',
         ''\<newline>--- FILE: src/utils.js ---\<newline>console.log('hello');\<newline>>>>\<newline>''],
        [15, 15, 15],
        [[header_meta (project_env (Some mock_encoding)) ''<<<\<newline>'' 15],
         [make_file_meta (project_env (Some mock_encoding)) Map.empty ''src/main.py''
            ''print('hello')'' 15 14],
         [make_file_meta (project_env (Some mock_encoding)) Map.empty ''src/utils.js''
            ''console.log('hello');'' 15 21]])"
proof -
  have h: "get_encoding (project_env (Some mock_encoding)) = Some mock_encoding"
    "relative_to main_py project_root = Some [''src'', ''main.py'']"
    "read_text (project_env (Some mock_encoding)) main_py = Some ''print('hello')''"
    "stat_size (project_env (Some mock_encoding)) main_py = Some 14"
    "relative_to utils_js project_root = Some [''src'', ''utils.js'']"
    "read_text (project_env (Some mock_encoding)) utils_js = Some ''console.log('hello');''"
    "stat_size (project_env (Some mock_encoding)) utils_js = Some 21"
    by (simp_all add: project_defs relative_to_def)
  from two_files_three_parts[OF h, of Map.empty None True "[]"] h
  show ?thesis by (simp add: preliminary_text_def file_block_def as_posix_def)
qed

section \<open>Skipped files\<close>

lemma process_file_same_result:
  "same_result s t \<Longrightarrow>
   same_result (process_file e root report cnt mx wn s f) (process_file e root report cnt mx wn t f)"
  by (auto simp: same_result_def process_file_def finalize_part_def reset_part_def Let_def
      warn_oversize_def close_part_if_full_def insert_block_def warn_threshold_def
      split: option.splits)

lemma foldl_same_result:
  "same_result s t \<Longrightarrow>
   same_result (foldl (process_file e root report cnt mx wn) s fs)
               (foldl (process_file e root report cnt mx wn) t fs)"
  by (induction fs arbitrary: s t) (auto intro: process_file_same_result)

lemma process_file_unreadable:
  "read_text e f = None \<Longrightarrow>
   process_file e root report cnt mx wn s f = s\<lparr> echo := echo s @ [ErrorReading f] \<rparr>"
  by (simp add: process_file_def split: option.splits)

lemma echo_process_file: "prefix (echo s) (echo (process_file e root report cnt mx wn s f))"
  by (auto simp: process_file_def finalize_part_def reset_part_def Let_def
      warn_oversize_def close_part_if_full_def insert_block_def warn_threshold_def
      split: option.splits)

lemma echo_foldl: "prefix (echo s) (echo (foldl (process_file e root report cnt mx wn) s fs))"
proof (induction fs arbitrary: s)
  case Nil
  show ?case by simp
next
  case (Cons f fs)
  show ?case
    using Cons[of "process_file e root report cnt mx wn s f"]
      echo_process_file[of s e root report cnt mx wn f]
    by (metis foldl_Cons prefix_order.order_trans)
qed

lemma finish_same_result: "same_result s t \<Longrightarrow> same_result (finish s) (finish t)"
  by (auto simp: same_result_def finish_def finalize_part_def Let_def)

lemma init_same_result:
  "same_result (init_assembler e cnt msgs p n) (init_assembler e cnt msgs' p n')"
  by (auto simp: same_result_def init_assembler_def Let_def)

lemma echo_finish: "echo (finish s) = echo s"
  by (simp add: finish_def finalize_part_def Let_def)

lemma bind_count_bound:
  "counter_bound e ct \<Longrightarrow> \<exists>cnt msgs. bind_count e ct = (Some cnt, msgs)"
  by (cases "get_encoding e") (simp_all add: counter_bound_def bind_count_def)

text \<open>
  C8.  A file whose read raises is skipped entirely: the iteration changes nothing
  in the state but the terminal output, to which it adds the warning for that
  file; the result of the run (texts, counts and metadata of all parts) is the
  result of the run without that file in the list; and, when the counter is
  bound, the run returns and the warning is in its output.
\<close>

theorem unreadable_file_skipped:
  assumes "read_text e f = None"
  shows "process_file e root report cnt max_tokens warn_tokens s f =
           s\<lparr> echo := echo s @ [ErrorReading f] \<rparr>
       \<and> generate_context e root (xs @ f # ys) report count_tokens max_tokens warn_tokens nh tv =
         generate_context e root (xs @ ys) report count_tokens max_tokens warn_tokens nh tv
       \<and> (counter_bound e count_tokens \<longrightarrow>
            (\<exists>r. generate_context_run e root (xs @ f # ys) report count_tokens max_tokens
                    warn_tokens nh tv = Inr r \<and> ErrorReading f \<in> set (echo r)))"
proof -
  have step: "process_file e root report cnt max_tokens warn_tokens s f =
           s\<lparr> echo := echo s @ [ErrorReading f] \<rparr>"
    using assms by (rule process_file_unreadable)
  have same: "generate_context e root (xs @ f # ys) report count_tokens max_tokens warn_tokens nh tv =
         generate_context e root (xs @ ys) report count_tokens max_tokens warn_tokens nh tv"
  proof (cases "bind_count e count_tokens")
    case (Pair c msgs)
    show ?thesis
    proof (cases c)
      case None
      with Pair show ?thesis by (simp add: generate_context_def generate_context_run_def)
    next
      case (Some cnt)
      let ?P = "process_file e root report cnt max_tokens warn_tokens"
      let ?i1 = "init_assembler e cnt msgs (preliminary_text nh tv) (length (xs @ f # ys))"
      let ?i2 = "init_assembler e cnt msgs (preliminary_text nh tv) (length (xs @ ys))"
      have a: "same_result (foldl ?P ?i1 xs) (foldl ?P ?i2 xs)"
        by (rule foldl_same_result) (rule init_same_result)
      have "same_result (?P (foldl ?P ?i1 xs) f) (foldl ?P ?i1 xs)"
        by (simp add: process_file_unreadable[OF assms] same_result_def)
      with a have "same_result (?P (foldl ?P ?i1 xs) f) (foldl ?P ?i2 xs)"
        by (simp add: same_result_def)
      then have "same_result (foldl ?P (?P (foldl ?P ?i1 xs) f) ys) (foldl ?P (foldl ?P ?i2 xs) ys)"
        by (rule foldl_same_result)
      then have "same_result (finish (foldl ?P ?i1 (xs @ f # ys))) (finish (foldl ?P ?i2 (xs @ ys)))"
        by (simp add: finish_same_result)
      with Pair Some show ?thesis
        by (simp add: generate_context_def generate_context_run_def same_result_def)
    qed
  qed
  have warn: "\<exists>r. generate_context_run e root (xs @ f # ys) report count_tokens max_tokens
                    warn_tokens nh tv = Inr r \<and> ErrorReading f \<in> set (echo r)"
    if cb: "counter_bound e count_tokens"
  proof -
    obtain cnt msgs where bc: "bind_count e count_tokens = (Some cnt, msgs)"
      using bind_count_bound[OF cb] by blast
    let ?P = "process_file e root report cnt max_tokens warn_tokens"
    let ?i1 = "init_assembler e cnt msgs (preliminary_text nh tv) (length (xs @ f # ys))"
    let ?r = "finish (foldl ?P ?i1 (xs @ f # ys))"
    have run: "generate_context_run e root (xs @ f # ys) report count_tokens max_tokens
                      warn_tokens nh tv = Inr ?r"
      using bc by (simp add: generate_context_run_def)
    have "ErrorReading f \<in> set (echo (?P (foldl ?P ?i1 xs) f))"
      by (simp add: process_file_unreadable[OF assms])
    moreover have "prefix (echo (?P (foldl ?P ?i1 xs) f)) (echo (foldl ?P (?P (foldl ?P ?i1 xs) f) ys))"
      by (rule echo_foldl)
    ultimately have "ErrorReading f \<in> set (echo (foldl ?P ?i1 (xs @ f # ys)))"
      using set_mono_prefix by fastforce
    then have "ErrorReading f \<in> set (echo ?r)" by (simp add: echo_finish)
    with run show ?thesis by blast
  qed
  from step same warn show ?thesis by blast
qed

theorem unreadable_file_skipped_witness:
  "read_text (project_env None) ghost_py = None \<and>
   generate_context (project_env None) project_root ([main_py] @ ghost_py # [utils_js])
     Map.empty False None None True [] =
   generate_context (project_env None) project_root ([main_py] @ [utils_js])
     Map.empty False None None True [] \<and>
   (\<exists>r. generate_context_run (project_env None) project_root ([main_py] @ ghost_py # [utils_js])
          Map.empty False None None True [] = Inr r \<and> ErrorReading ghost_py \<in> set (echo r))"
proof -
  have h: "read_text (project_env None) ghost_py = None"
    by (simp add: project_defs ghost_py_def)
  have cb: "counter_bound (project_env None) False" by (simp add: counter_bound_def)
  from unreadable_file_skipped[OF h, of project_root Map.empty _ None None _ "[main_py]"
      "[utils_js]" False True "[]"] h cb
  show ?thesis by blast
qed

section \<open>Entries recorded by the assembler\<close>












section \<open>Non-empty result\<close>

text \<open>When the counter is bound, the run returns at least one part, and the last
  part ends with the closing sentinel.\<close>

lemma parts_nonempty_when_counter_bound:
  assumes "counter_bound e ct"
  shows "\<exists>parts counts metas.
           generate_context e root fs report ct mx wn nh tv = Inr (parts, counts, metas) \<and>
           parts \<noteq> [] \<and> suffix ''>>>\<newline>'' (last parts)"
proof -
  obtain cnt msgs where "bind_count e ct = (Some cnt, msgs)"
    using bind_count_bound[OF assms] by blast
  then show ?thesis
    by (simp add: generate_context_def generate_context_run_def finish_fields suffix_def)
qed

text \<open>
  C10.  With token counting requested and the encoder failing to initialise,
  \<open>generate_context\<close> returns no list at all, also for the empty file list with
  the header suppressed and no tree: the unbound counter is called on the
  preliminary text before any part is built.
\<close>

theorem no_parts_when_encoder_fails:
  "generate_context (project_env None) project_root [] Map.empty True None None True [] =
   Inl UnboundLocalError"
  by (simp add: generate_context_def generate_context_run_def bind_count_def project_env_def)

section \<open>Secret findings in the metadata\<close>

text \<open>The keys of the report are the keys of the classifier's collection.\<close>

lemma dom_add_secret: "dom (add_secret k report s) = insert k (dom report)"
  by (simp add: add_secret_def)

lemma dom_foldl_add_secret: "dom (foldl (add_secret k) report ss) = (if ss = [] then dom report else insert k (dom report))"
  by (induction ss arbitrary: report) (auto simp: dom_add_secret)

lemma dom_add_file_secrets: "dom (add_file_secrets report item) = insert (fst item) (dom report)"
  by (cases item) (auto simp: add_file_secrets_def Let_def dom_foldl_add_secret)

lemma dom_foldl_add_file_secrets:
  "dom (foldl add_file_secrets report items) = dom report \<union> fst ` set items"
  by (induction items arbitrary: report) (auto simp: dom_add_file_secrets)

lemma report_keys_are_classifier_keys:
  "scan_files (map str_path fs) = Some found \<Longrightarrow>
   dom (checkSecurityIssue scan_files fs) = fst ` set found"
  by (simp add: checkSecurityIssue_def dom_foldl_add_file_secrets)

text \<open>
  C2.  The adapter does not key its mapping by root-relative path: it keeps the
  keys of the classifier.  For the single file \<open>/proj/src/main.py\<close>, scanned under
  that name, the finding is filed under \<open>/proj/src/main.py\<close>; the assembler looks
  \<open>src/main.py\<close> up, finds nothing, and records an empty findings list for a file
  the classifier reported.
\<close>

theorem secret_findings_lost:
  "keyword_scan (map str_path [main_py]) =
     Some [(''/proj/src/main.py'',
            [\<lparr> secret_type = ''Secret Keyword'', line_number = 1, secret_value = None \<rparr>])]
 \<and> checkSecurityIssue keyword_scan [main_py] ''/proj/src/main.py'' =
     Some [Finding ''Secret Keyword'' 1]
 \<and> checkSecurityIssue keyword_scan [main_py] ''src/main.py'' = None
 \<and> map_sum id (map (map (\<lambda>m. (path m, potential_secrets m))) \<circ> snd \<circ> snd)
     (generate_context (project_env None) project_root [main_py]
        (checkSecurityIssue keyword_scan [main_py]) False None None True []) =
   Inr [[(''_aicontext_header_'', []), (''src/main.py'', [])]]"
  by (simp add: assembler_defs project_defs header_path_def checkSecurityIssue_def
      keyword_scan_def str_path_def add_file_secrets_def add_secret_def)

section \<open>File filter\<close>



lemma strip_plain [simp]:
  "strip ''.env\<newline>'' = ''.env''" "strip ''docs/'' = ''docs/''" "strip ''config.json'' = ''config.json''"
  by (simp_all add: strip_def whitespace_def lstrip_of.simps)




section \<open>Recorded files of a run\<close>




















section \<open>Tree rendering\<close>


lemma ins_all_simps [simp]:
  "ins_all t [] = t"
  "ins_all t (p # ps) = ins_all (insert_parts p t) ps"
  by (simp_all add: ins_all_def)






















end
